theory Spec2Isabelle
  imports Complex_Main
begin

section \<open>Values of the dataset\<close>

text \<open>
  The dataset is whatever \<^verbatim>\<open>json.load\<close> returns: \<^verbatim>\<open>None\<close>, a bool, an int, a float,
  a str, a list or a dict with str keys. A str is a list of characters, one element
  per code point (the alphabet is the 256 characters of \<^typ>\<open>char\<close>), so that
  \<^const>\<open>length\<close> is Python's \<^verbatim>\<open>len\<close>. A dict is the list of its items in insertion
  order; its keys are distinct and a lookup is \<^const>\<open>map_of\<close>.
  A float is only ever tested for truth, so it is kept abstract: a finite value or one
  of the three special values that \<^verbatim>\<open>json.load\<close> accepts.
\<close>

datatype pyfloat = Finite rat | PosInf | NegInf | NaN

datatype json =
    JNull
  | JBool bool
  | JInt int
  | JFloat pyfloat
  | JStr string
  | JArr "json list"
  | JObj "(string \<times> json) list"

text \<open>
  The exceptions the two scripts can raise on such a value. \<^verbatim>\<open>ValidationError\<close> is
  the script's own class and carries its message; the others are Python's built-in ones.
\<close>

datatype error =
    ValidationError string
  | TypeError
  | KeyError
  | AttributeError

section \<open>Python's operations on these values\<close>

text \<open>
  A step that may raise returns \<open>Inl\<close> of the exception; \<open>on_ok\<close> runs the rest of
  the function on the value of a step that did not raise.
\<close>

definition on_ok :: "error + 'a \<Rightarrow> ('a \<Rightarrow> error + 'b) \<Rightarrow> error + 'b" where
  "on_ok m f = (case m of Inl e \<Rightarrow> Inl e | Inr x \<Rightarrow> f x)"

definition dict_get :: "(string \<times> json) list \<Rightarrow> string \<Rightarrow> json \<Rightarrow> json" where
  "dict_get kvs k d = (case map_of kvs k of None \<Rightarrow> d | Some v \<Rightarrow> v)"

text \<open>\<^verbatim>\<open>x.get(k, d)\<close>: only a dict has \<^verbatim>\<open>get\<close>.\<close>

fun py_get :: "json \<Rightarrow> string \<Rightarrow> json \<Rightarrow> error + json" where
  "py_get (JObj kvs) k d = Inr (dict_get kvs k d)"
| "py_get _ k d = Inl AttributeError"

text \<open>
  \<^verbatim>\<open>x[k]\<close> for a str \<open>k\<close>: the value in a dict, \<^verbatim>\<open>KeyError\<close> when the key is
  missing; a list and a str take integer indices only, the other values have no items.
\<close>

fun py_subscript :: "json \<Rightarrow> string \<Rightarrow> error + json" where
  "py_subscript (JObj kvs) k =
     (case map_of kvs k of None \<Rightarrow> Inl KeyError | Some v \<Rightarrow> Inr v)"
| "py_subscript _ k = Inl TypeError"

fun is_substring :: "string \<Rightarrow> string \<Rightarrow> bool" where
  "is_substring k [] = (k = [])"
| "is_substring k (c # s) = (take (length k) (c # s) = k \<or> is_substring k s)"

text \<open>
  \<^verbatim>\<open>k in x\<close> for a str \<open>k\<close>: a key of a dict, an element of a list, a substring of
  a str; \<^verbatim>\<open>TypeError\<close> on a value that is not a container.
\<close>

fun py_contains :: "string \<Rightarrow> json \<Rightarrow> error + bool" where
  "py_contains k (JObj kvs) = Inr (k \<in> set (map fst kvs))"
| "py_contains k (JArr xs) = Inr (JStr k \<in> set xs)"
| "py_contains k (JStr s) = Inr (is_substring k s)"
| "py_contains k _ = Inl TypeError"


text \<open>\<^verbatim>\<open>len(msg)\<close>: defined on str, list and dict, a \<^verbatim>\<open>TypeError\<close> on the rest.\<close>

fun py_len :: "json \<Rightarrow> error + nat" where
  "py_len (JStr s) = Inr (length s)"
| "py_len (JArr xs) = Inr (length xs)"
| "py_len (JObj kvs) = Inr (length (remdups (map fst kvs)))"
| "py_len _ = Inl TypeError"

text \<open>The truth value of \<^verbatim>\<open>if x:\<close>.\<close>

fun truthy :: "json \<Rightarrow> bool" where
  "truthy JNull = False"
| "truthy (JBool b) = b"
| "truthy (JInt i) = (i \<noteq> 0)"
| "truthy (JFloat f) = (f \<noteq> Finite 0)"
| "truthy (JStr s) = (s \<noteq> [])"
| "truthy (JArr xs) = (xs \<noteq> [])"
| "truthy (JObj kvs) = (kvs \<noteq> [])"

text \<open>\<^verbatim>\<open>f"{i}"\<close> for a non-negative int: its decimal digits.\<close>

definition digit_char :: "nat \<Rightarrow> char" where
  "digit_char d = ''0123456789'' ! d"

fun str_nat :: "nat \<Rightarrow> string" where
  "str_nat n = (if n < 10 then [digit_char n] else str_nat (n div 10) @ [digit_char (n mod 10)])"

declare str_nat.simps [simp del]

text \<open>\<^verbatim>\<open>f"'{s}'"\<close>: a str between single quotes.\<close>

definition quoted :: "string \<Rightarrow> string" where
  "quoted s = [CHR 0x27] @ s @ [CHR 0x27]"

text \<open>
  The characters \<^verbatim>\<open>str.strip\<close> removes and \<^verbatim>\<open>\s\<close> matches, among the code points
  below 256: tab to carriage return, the four separators, space, NEL and no-break space.
  \<^verbatim>\<open>\d\<close> matches the decimal digits, which below 256 are \<open>0\<close> to \<open>9\<close>.
\<close>

definition py_isspace :: "char \<Rightarrow> bool" where
  "py_isspace c =
     (let n = (of_char c :: nat)
      in (9 \<le> n \<and> n \<le> 13) \<or> (28 \<le> n \<and> n \<le> 32) \<or> n = 133 \<or> n = 160)"

definition is_digit :: "char \<Rightarrow> bool" where
  "is_digit c = (c \<in> set ''0123456789'')"

text \<open>
  \<^verbatim>\<open>not isinstance(v, str) or not v.strip()\<close>: the value is not a str, or nothing is
  left of it after stripping.
\<close>

fun not_nonempty_str :: "json \<Rightarrow> bool" where
  "not_nonempty_str (JStr s) = list_all py_isspace s"
| "not_nonempty_str _ = True"

text \<open>
  \<^verbatim>\<open>$\<close> in a pattern compiled without flags: the end of the string, or the position
  before a newline that ends the string.
\<close>

definition at_end :: "string \<Rightarrow> bool" where
  "at_end r = (r = [] \<or> r = [CHR 0x0A])"

text \<open>
  \<^verbatim>\<open>re.compile(r'^\d+px$').match(s)\<close> on a str. The digits and \<open>p\<close> are disjoint, so
  the only way to match is to take every leading digit.
\<close>

definition height_pattern_match :: "string \<Rightarrow> bool" where
  "height_pattern_match s =
     (let r = dropWhile is_digit s
      in takeWhile is_digit s \<noteq> [] \<and> take 2 r = ''px'' \<and> at_end (drop 2 r))"

text \<open>\<^verbatim>\<open>re.compile(r'^\d+%\s+\d+%$').match(s)\<close> on a str, in the same way.\<close>

definition percentage_pattern_match :: "string \<Rightarrow> bool" where
  "percentage_pattern_match s =
     (let r1 = dropWhile is_digit s;
          r2 = drop 1 r1;
          r3 = dropWhile py_isspace r2;
          r4 = dropWhile is_digit r3
      in takeWhile is_digit s \<noteq> [] \<and> take 1 r1 = ''%'' \<and>
         takeWhile py_isspace r2 \<noteq> [] \<and>
         takeWhile is_digit r3 \<noteq> [] \<and> take 1 r4 = ''%'' \<and> at_end (drop 1 r4))"

section \<open>render\_pdf.py: paginate\_comments\<close>

text \<open>\<^verbatim>\<open>c.get("message", "")\<close>.\<close>

definition get_message :: "json \<Rightarrow> error + json" where
  "get_message c = py_get c ''message'' (JStr [])"

text \<open>
  \<^verbatim>\<open>effective_len = msg_len if msg_len > 120 else msg_len * 0.5\<close>. The result is an int
  or a float that is a multiple of one half; sums of such numbers are exact in binary64
  below \<open>2^52\<close>, so the running length is a rational number here.
\<close>

definition effective_len :: "nat \<Rightarrow> rat" where
  "effective_len msg_len =
     (if msg_len > 120 then of_nat msg_len else of_nat msg_len * (1 / 2))"

text \<open>Lines 29 to 32 for one comment: the message, its length, its effective length.\<close>

definition comment_weight :: "json \<Rightarrow> error + rat" where
  "comment_weight c =
     (case get_message c of
        Inl e \<Rightarrow> Inl e
      | Inr msg \<Rightarrow>
          (case py_len msg of
             Inl e \<Rightarrow> Inl e
           | Inr msg_len \<Rightarrow> Inr (effective_len msg_len)))"

text \<open>
  The \<^verbatim>\<open>for\<close> loop with its three variables \<^verbatim>\<open>pages\<close>, \<^verbatim>\<open>current_page\<close> and
  \<^verbatim>\<open>current_len\<close>, and the closing of the last page after it. \<^verbatim>\<open>append\<close> adds at the end.
\<close>

fun paginate_loop ::
  "rat \<Rightarrow> int \<Rightarrow> json list \<Rightarrow> json list list \<Rightarrow> json list \<Rightarrow> rat \<Rightarrow> error + json list list"
where
  "paginate_loop max_chars max_per_page [] pages current_page current_len =
     Inr (if current_page \<noteq> [] then pages @ [current_page] else pages)"
| "paginate_loop max_chars max_per_page (c # cs) pages current_page current_len =
     (case comment_weight c of
        Inl e \<Rightarrow> Inl e
      | Inr w \<Rightarrow>
          if current_page \<noteq> [] \<and>
             (current_len + w > max_chars \<or> int (length current_page) \<ge> max_per_page)
          then paginate_loop max_chars max_per_page cs (pages @ [current_page]) [c] (0 + w)
          else paginate_loop max_chars max_per_page cs pages (current_page @ [c]) (current_len + w))"

definition paginate_comments :: "json list \<Rightarrow> rat \<Rightarrow> int \<Rightarrow> error + json list list" where
  "paginate_comments comments max_chars max_per_page =
     paginate_loop max_chars max_per_page comments [] [] 0"

text \<open>The weight of a page: the sum of the effective lengths of its comments.\<close>

definition weight_of :: "json \<Rightarrow> rat" where
  "weight_of c = (case comment_weight c of Inl _ \<Rightarrow> 0 | Inr w \<Rightarrow> w)"

definition page_weight :: "json list \<Rightarrow> rat" where
  "page_weight p = sum_list (map weight_of p)"

text \<open>A comment the loop can measure: a dict whose message, if any, has a length.\<close>

definition measurable :: "json \<Rightarrow> bool" where
  "measurable c = (case comment_weight c of Inl _ \<Rightarrow> False | Inr _ \<Rightarrow> True)"

section \<open>render\_pdf.py: parse\_background and the render context\<close>

text \<open>
  The dict \<^verbatim>\<open>parse_background\<close> returns has exactly the keys \<^verbatim>\<open>image\<close>, \<^verbatim>\<open>size\<close> and
  \<^verbatim>\<open>position\<close>; \<^verbatim>\<open>get\<close> returns whatever value the configuration holds, so the
  fields are values of the dataset. Each call builds a new dict.
\<close>

record background =
  bg_image :: json
  bg_size :: json
  bg_position :: json

fun parse_background :: "json \<Rightarrow> json \<Rightarrow> json \<Rightarrow> background" where
  "parse_background (JStr s) default_size default_position =
     \<lparr>bg_image = JStr s, bg_size = default_size, bg_position = default_position\<rparr>"
| "parse_background (JObj kvs) default_size default_position =
     \<lparr>bg_image = dict_get kvs ''image'' (JStr []),
      bg_size = dict_get kvs ''size'' default_size,
      bg_position = dict_get kvs ''position'' default_position\<rparr>"
| "parse_background _ default_size default_position =
     \<lparr>bg_image = JStr [], bg_size = default_size, bg_position = default_position\<rparr>"







section \<open>test\_data.py: the validator\<close>

text \<open>
  \<^verbatim>\<open>validate_file_exists\<close>: the file system is the parameter \<open>exists\<close>, true of
  the relative paths \<open>p\<close> for which \<^verbatim>\<open>(ROOT / p).exists()\<close>. \<^verbatim>\<open>ROOT / filepath\<close> is a
  \<^verbatim>\<open>TypeError\<close> when \<^verbatim>\<open>filepath\<close> is not a str.
\<close>

fun validate_file_exists :: "(string \<Rightarrow> bool) \<Rightarrow> json \<Rightarrow> string \<Rightarrow> error + bool" where
  "validate_file_exists exists (JStr filepath) description =
     (if \<not> exists filepath
      then Inl (ValidationError (description @ '' not found: '' @ filepath))
      else Inr True)"
| "validate_file_exists exists _ description = Inl TypeError"

text \<open>The loop of \<^verbatim>\<open>validate_person\<close> over the required fields.\<close>

fun person_fields :: "json \<Rightarrow> string list \<Rightarrow> error + unit" where
  "person_fields person [] = Inr ()"
| "person_fields person (field # rest) =
     (case py_contains field person of
        Inl e \<Rightarrow> Inl e
      | Inr present \<Rightarrow>
          if \<not> present
          then Inl (ValidationError (''Missing required field in person: '' @ quoted field))
          else (case py_subscript person field of
                  Inl e \<Rightarrow> Inl e
                | Inr v \<Rightarrow>
                    if not_nonempty_str v
                    then Inl (ValidationError
                           (''Field '' @ quoted (''person.'' @ field) @ '' must be a non-empty string''))
                    else person_fields person rest))"

definition validate_person :: "(string \<Rightarrow> bool) \<Rightarrow> json \<Rightarrow> error + unit" where
  "validate_person exists data =
     on_ok (py_contains ''person'' data) (\<lambda>present.
       if \<not> present
       then Inl (ValidationError (''Missing required top-level key: '' @ quoted ''person''))
       else
     on_ok (py_subscript data ''person'') (\<lambda>person.
     on_ok (person_fields person
              [''name'', ''subtitle'', ''profile_image'', ''header_note'', ''date_range'']) (\<lambda>_.
     on_ok (py_subscript person ''profile_image'') (\<lambda>img.
     on_ok (validate_file_exists exists img ''Person profile image'') (\<lambda>_.
       Inr ())))))"

text \<open>The loop of \<^verbatim>\<open>validate_background_object\<close> over the required fields.\<close>

fun background_fields :: "json \<Rightarrow> string \<Rightarrow> string list \<Rightarrow> error + unit" where
  "background_fields bg path [] = Inr ()"
| "background_fields bg path (field # rest) =
     (case py_contains field bg of
        Inl e \<Rightarrow> Inl e
      | Inr present \<Rightarrow>
          if \<not> present
          then Inl (ValidationError (''Missing required field in '' @ path @ '': '' @ quoted field))
          else background_fields bg path rest)"

text \<open>
  \<^verbatim>\<open>size not in valid_sizes and not percentage_pattern.match(size)\<close>: the pattern is
  tried only on a size that is none of the three words, and \<^verbatim>\<open>match\<close> raises
  \<^verbatim>\<open>TypeError\<close> on a value that is not a str.
\<close>

fun size_invalid :: "json \<Rightarrow> error + bool" where
  "size_invalid (JStr s) =
     Inr (s \<notin> set [''cover'', ''contain'', ''auto''] \<and> \<not> percentage_pattern_match s)"
| "size_invalid _ = Inl TypeError"

text \<open>\<^verbatim>\<open>f"{v}"\<close> for a value that is a str at the place where it is formatted.\<close>

fun str_text :: "json \<Rightarrow> string" where
  "str_text (JStr s) = s"
| "str_text _ = []"

definition validate_background_object :: "(string \<Rightarrow> bool) \<Rightarrow> json \<Rightarrow> string \<Rightarrow> error + unit" where
  "validate_background_object exists bg path =
     (case bg of
        JObj kvs \<Rightarrow>
          on_ok (background_fields bg path [''image'', ''size'', ''position'']) (\<lambda>_.
          on_ok (py_subscript bg ''image'') (\<lambda>img.
          on_ok (validate_file_exists exists img (path @ '' image'')) (\<lambda>_.
          on_ok (py_subscript bg ''size'') (\<lambda>size.
          on_ok (size_invalid size) (\<lambda>bad.
            if bad
            then Inl (ValidationError
                   (path @ ''.size must be '' @ quoted ''cover'' @ '', '' @ quoted ''contain'' @
                    '', '' @ quoted ''auto'' @ '', or '' @ quoted ''XX% XX%'' @
                    '' format. Got: '' @ quoted (str_text size)))
            else
          on_ok (py_subscript bg ''position'') (\<lambda>position.
            if not_nonempty_str position
            then Inl (ValidationError (path @ ''.position must be a non-empty string''))
            else Inr ()))))))
      | _ \<Rightarrow> Inl (ValidationError (path @ '' must be an object'')))"

text \<open>The loop of \<^verbatim>\<open>validate_backgrounds\<close> over \<^verbatim>\<open>enumerate(backgrounds["pages_list"])\<close>.\<close>

fun pages_list_loop :: "(string \<Rightarrow> bool) \<Rightarrow> nat \<Rightarrow> json list \<Rightarrow> error + unit" where
  "pages_list_loop exists i [] = Inr ()"
| "pages_list_loop exists i (bg # bgs) =
     (case validate_background_object exists bg (''backgrounds.pages_list['' @ str_nat i @ '']'') of
        Inl e \<Rightarrow> Inl e
      | Inr _ \<Rightarrow> pages_list_loop exists (Suc i) bgs)"

definition validate_backgrounds :: "(string \<Rightarrow> bool) \<Rightarrow> json \<Rightarrow> error + unit" where
  "validate_backgrounds exists data =
     on_ok (py_contains ''backgrounds'' data) (\<lambda>present.
       if \<not> present
       then Inl (ValidationError (''Missing required top-level key: '' @ quoted ''backgrounds''))
       else
     on_ok (py_subscript data ''backgrounds'') (\<lambda>backgrounds.
     on_ok (py_contains ''cover'' backgrounds) (\<lambda>has_cover.
       if \<not> has_cover
       then Inl (ValidationError ''Missing required field: backgrounds.cover'')
       else
     on_ok (py_subscript backgrounds ''cover'') (\<lambda>cover.
     on_ok (validate_background_object exists cover ''backgrounds.cover'') (\<lambda>_.
     on_ok (py_contains ''pages'' backgrounds) (\<lambda>has_pages.
     on_ok (if has_pages
            then on_ok (py_subscript backgrounds ''pages'') (\<lambda>pages.
                   validate_background_object exists pages ''backgrounds.pages'')
            else Inr ()) (\<lambda>_.
     on_ok (py_contains ''pages_list'' backgrounds) (\<lambda>has_list.
       if has_list
       then on_ok (py_subscript backgrounds ''pages_list'') (\<lambda>pages_list.
              case pages_list of
                JArr bgs \<Rightarrow> pages_list_loop exists 0 bgs
              | _ \<Rightarrow> Inl (ValidationError ''backgrounds.pages_list must be an array''))
       else Inr ()))))))))"

text \<open>
  The body of the loop of \<^verbatim>\<open>validate_comments\<close> for the comment at index \<open>i\<close>; its
  value is the author that the loop appends to \<^verbatim>\<open>authors\<close>. The \<^verbatim>\<open>try\<close> around the
  profile image rewrites a \<^verbatim>\<open>ValidationError\<close> only. \<^verbatim>\<open>height_pattern.match(height)\<close>
  raises \<^verbatim>\<open>TypeError\<close> on a height that is not a str.
\<close>

definition comment_at :: "nat \<Rightarrow> string" where
  "comment_at i = ''comments['' @ str_nat i @ '']''"

definition check_profile_image :: "(string \<Rightarrow> bool) \<Rightarrow> nat \<Rightarrow> json \<Rightarrow> json \<Rightarrow> error + unit" where
  "check_profile_image exists i author profile_img =
     (if truthy profile_img
      then (case validate_file_exists exists profile_img (comment_at i @ ''.profile_image'') of
              Inl (ValidationError e) \<Rightarrow>
                Inl (ValidationError (''Invalid profile_image for '' @ str_text author @ '': '' @ e))
            | Inl e \<Rightarrow> Inl e
            | Inr _ \<Rightarrow> Inr ())
      else Inr ())"

fun check_height :: "nat \<Rightarrow> json \<Rightarrow> error + unit" where
  "check_height i (JStr height) =
     (if \<not> height_pattern_match height
      then Inl (ValidationError
             (comment_at i @ ''.height must be in format '' @ quoted ''XXXpx'' @
              ''. Got: '' @ quoted height))
      else Inr ())"
| "check_height i _ = Inl TypeError"

definition check_comment :: "(string \<Rightarrow> bool) \<Rightarrow> nat \<Rightarrow> json \<Rightarrow> error + string" where
  "check_comment exists i comment =
     on_ok (py_contains ''author'' comment) (\<lambda>has_author.
       if \<not> has_author
       then Inl (ValidationError (''Missing '' @ quoted ''author'' @ '' in '' @ comment_at i))
       else
     on_ok (py_contains ''message'' comment) (\<lambda>has_message.
       if \<not> has_message
       then Inl (ValidationError (''Missing '' @ quoted ''message'' @ '' in '' @ comment_at i))
       else
     on_ok (py_subscript comment ''author'') (\<lambda>author.
       if not_nonempty_str author
       then Inl (ValidationError (comment_at i @ ''.author must be a non-empty string''))
       else
     on_ok (py_subscript comment ''message'') (\<lambda>message.
       if not_nonempty_str message
       then Inl (ValidationError (comment_at i @ ''.message must be a non-empty string''))
       else
     on_ok (py_contains ''profile_image'' comment) (\<lambda>has_image.
     on_ok (if has_image
            then on_ok (py_subscript comment ''profile_image'') (check_profile_image exists i author)
            else Inr ()) (\<lambda>_.
     on_ok (py_contains ''height'' comment) (\<lambda>has_height.
     on_ok (if has_height
            then on_ok (py_subscript comment ''height'') (check_height i)
            else Inr ()) (\<lambda>_.
       Inr (str_text author)))))))))"

text \<open>The loop over \<^verbatim>\<open>enumerate(comments)\<close>, with the list \<^verbatim>\<open>authors\<close> it builds.\<close>

fun comments_loop :: "(string \<Rightarrow> bool) \<Rightarrow> nat \<Rightarrow> json list \<Rightarrow> string list \<Rightarrow> error + string list" where
  "comments_loop exists i [] authors = Inr authors"
| "comments_loop exists i (comment # rest) authors =
     (case check_comment exists i comment of
        Inl e \<Rightarrow> Inl e
      | Inr author \<Rightarrow> comments_loop exists (Suc i) rest (authors @ [author]))"

text \<open>
  \<^verbatim>\<open>[author for author in set(authors) if authors.count(author) > 1]\<close>: the order of
  a set's elements is not fixed, so the duplicates are a set.
\<close>

definition duplicates :: "string list \<Rightarrow> string set" where
  "duplicates authors = set (filter (\<lambda>author. count_list authors author > 1) authors)"

text \<open>
  \<^verbatim>\<open>validate_comments\<close> returns nothing; what it prints is kept as its value: the
  authors of the warning line when that line is printed, \<open>None\<close> when it is not.
\<close>

definition validate_comments :: "(string \<Rightarrow> bool) \<Rightarrow> json \<Rightarrow> error + string set option" where
  "validate_comments exists data =
     on_ok (py_contains ''comments'' data) (\<lambda>present.
       if \<not> present
       then Inl (ValidationError (''Missing required top-level key: '' @ quoted ''comments''))
       else
     on_ok (py_subscript data ''comments'') (\<lambda>comments.
       case comments of
         JArr cs \<Rightarrow>
           if length cs = 0
           then Inl (ValidationError (quoted ''comments'' @ '' array is empty''))
           else on_ok (comments_loop exists 0 cs []) (\<lambda>authors.
                  Inr (if duplicates authors \<noteq> {} then Some (duplicates authors) else None))
       | _ \<Rightarrow> Inl (ValidationError (quoted ''comments'' @ '' must be an array''))))"

text \<open>
  The validations that \<^verbatim>\<open>main\<close> runs on the loaded data, and its exit code: 0 when
  all pass, 1 on a \<^verbatim>\<open>ValidationError\<close> and on any other exception. \<open>loaded\<close> is the
  outcome of \<^verbatim>\<open>load_json\<close>.
\<close>

definition run_validations :: "(string \<Rightarrow> bool) \<Rightarrow> json \<Rightarrow> error + string set option" where
  "run_validations exists data =
     on_ok (validate_person exists data) (\<lambda>_.
     on_ok (validate_backgrounds exists data) (\<lambda>_.
       validate_comments exists data))"

definition main :: "(string \<Rightarrow> bool) \<Rightarrow> error + json \<Rightarrow> nat" where
  "main exists loaded =
     (case on_ok loaded (run_validations exists) of Inl _ \<Rightarrow> 1 | Inr _ \<Rightarrow> 0)"

text \<open>
  The pixel-magnitude pattern in the words of the specification: digits followed by
  \<open>px\<close>, and nothing else.
\<close>

definition spec_pixel_magnitude :: "string \<Rightarrow> bool" where
  "spec_pixel_magnitude s =
     (takeWhile is_digit s \<noteq> [] \<and> dropWhile is_digit s = ''px'')"

text \<open>
  A page is within the budget when its weight is at most \<open>max_chars\<close>, or when it is a
  single comment that alone weighs more.
\<close>

definition budget_ok :: "rat \<Rightarrow> json list \<Rightarrow> bool" where
  "budget_ok max_chars p =
     (page_weight p \<le> max_chars \<or> (length p = 1 \<and> weight_of (hd p) > max_chars))"

section \<open>Pagination\<close>

lemma weight_of_eq: "comment_weight c = Inr w \<Longrightarrow> weight_of c = w"
  by (simp add: weight_of_def)

lemma effective_len_nonneg: "0 \<le> effective_len n"
  by (simp add: effective_len_def)

lemma weight_of_nonneg: "0 \<le> weight_of c"
  by (auto simp: weight_of_def comment_weight_def on_ok_def effective_len_nonneg split: sum.splits)

lemma page_weight_snoc: "page_weight (p @ [c]) = page_weight p + weight_of c"
  by (simp add: page_weight_def)

lemma page_weight_single: "page_weight [c] = weight_of c"
  by (simp add: page_weight_def)

lemma page_weight_nonneg: "0 \<le> page_weight p"
  unfolding page_weight_def by (rule sum_list_nonneg) (auto simp: weight_of_nonneg)

lemma weight_le_page_weight: "c \<in> set p \<Longrightarrow> weight_of c \<le> page_weight p"
proof (induction p)
  case Nil
  then show ?case by simp
next
  case (Cons a p)
  have tl: "0 \<le> page_weight p" by (rule page_weight_nonneg)
  have hd: "0 \<le> weight_of a" by (rule weight_of_nonneg)
  have unfold: "page_weight (a # p) = weight_of a + page_weight p"
    by (simp add: page_weight_def)
  from Cons show ?case using tl hd unfold by auto
qed

lemma in_page_in_concat: "p \<in> set pages \<Longrightarrow> c \<in> set p \<Longrightarrow> c \<in> set (concat pages)"
  by auto

lemma measurable_weight: "measurable c \<Longrightarrow> \<exists>w. comment_weight c = Inr w"
  by (auto simp: measurable_def split: sum.splits)

lemma budget_ok_single: "budget_ok mc [c]"
  by (cases "weight_of c \<le> mc") (auto simp: budget_ok_def page_weight_single)

text \<open>The loop keeps every comment, in order: what it returns flattens to the pages
  closed so far, the open page and the comments still to come.\<close>

lemma loop_concat:
  "paginate_loop mc mp cs pages cur len = Inr res \<Longrightarrow> concat res = concat pages @ cur @ cs"
proof (induction cs arbitrary: pages cur len)
  case Nil
  then show ?case by (auto split: if_splits)
next
  case (Cons c cs)
  then show ?case by (fastforce split: sum.splits if_splits)
qed

lemma loop_total:
  "\<forall>c\<in>set cs. measurable c \<Longrightarrow> \<exists>res. paginate_loop mc mp cs pages cur len = Inr res"
proof (induction cs arbitrary: pages cur len)
  case Nil
  then show ?case by simp
next
  case (Cons c cs)
  from Cons.prems have "measurable c" by simp
  then obtain w where w: "comment_weight c = Inr w"
    using measurable_weight by blast
  from Cons have rest: "\<forall>c\<in>set cs. measurable c" by simp
  show ?case using w Cons.IH [OF rest] by simp
qed

text \<open>The invariant of the loop for the weight: the running length is the weight of the
  open page, and the open page, once it holds a comment, is within the budget.\<close>

lemma loop_budget:
  "paginate_loop mc mp cs pages cur len = Inr res \<Longrightarrow> len = page_weight cur \<Longrightarrow>
   \<forall>p\<in>set pages. budget_ok mc p \<Longrightarrow> cur = [] \<or> budget_ok mc cur \<Longrightarrow>
   p \<in> set res \<Longrightarrow> budget_ok mc p"
proof (induction cs arbitrary: pages cur len)
  case Nil
  then show ?case by (auto split: if_splits)
next
  case (Cons c cs)
  from Cons.prems(1) obtain w where w: "comment_weight c = Inr w"
    by (auto split: sum.splits)
  have ww: "weight_of c = w" using w by (rule weight_of_eq)
  show ?case
  proof (cases "cur \<noteq> [] \<and> (len + w > mc \<or> int (length cur) \<ge> mp)")
    case True
    then have run: "paginate_loop mc mp cs (pages @ [cur]) [c] (0 + w) = Inr res"
      using Cons.prems(1) w by simp
    have a: "0 + w = page_weight [c]" by (simp add: page_weight_single ww)
    have b: "\<forall>p\<in>set (pages @ [cur]). budget_ok mc p"
      using Cons.prems(3,4) True by auto
    show ?thesis using Cons.IH [OF run a b _ Cons.prems(5)] budget_ok_single by simp
  next
    case False
    then have run: "paginate_loop mc mp cs pages (cur @ [c]) (len + w) = Inr res"
      using Cons.prems(1) w by (simp split: if_splits)
    have a: "len + w = page_weight (cur @ [c])"
      by (simp add: page_weight_snoc ww Cons.prems(2))
    have c: "budget_ok mc (cur @ [c])"
    proof (cases "cur = []")
      case True
      then show ?thesis using budget_ok_single by simp
    next
      case nonempty: False
      with False have "len + w \<le> mc" by auto
      then show ?thesis using a by (simp add: budget_ok_def)
    qed
    show ?thesis using Cons.IH [OF run a Cons.prems(3) _ Cons.prems(5)] c by simp
  qed
qed

text \<open>The invariant of the loop for the count: a page is closed before it would grow
  beyond \<open>max_per_page\<close>, but never before it holds one comment.\<close>

lemma loop_count:
  "paginate_loop mc mp cs pages cur len = Inr res \<Longrightarrow>
   \<forall>p\<in>set pages. int (length p) \<le> max 1 mp \<Longrightarrow> int (length cur) \<le> max 1 mp \<Longrightarrow>
   p \<in> set res \<Longrightarrow> int (length p) \<le> max 1 mp"
proof (induction cs arbitrary: pages cur len)
  case Nil
  then show ?case by (auto split: if_splits)
next
  case (Cons c cs)
  from Cons.prems(1) obtain w where w: "comment_weight c = Inr w"
    by (auto split: sum.splits)
  show ?case
  proof (cases "cur \<noteq> [] \<and> (len + w > mc \<or> int (length cur) \<ge> mp)")
    case True
    then have run: "paginate_loop mc mp cs (pages @ [cur]) [c] (0 + w) = Inr res"
      using Cons.prems(1) w by simp
    have b: "\<forall>p\<in>set (pages @ [cur]). int (length p) \<le> max 1 mp"
      using Cons.prems(2,3) by auto
    show ?thesis using Cons.IH [OF run b _ Cons.prems(4)] by simp
  next
    case False
    then have run: "paginate_loop mc mp cs pages (cur @ [c]) (len + w) = Inr res"
      using Cons.prems(1) w by (simp split: if_splits)
    have c: "int (length (cur @ [c])) \<le> max 1 mp"
      using False by (cases "cur = []") auto
    show ?thesis using Cons.IH [OF run Cons.prems(2) c Cons.prems(4)] .
  qed
qed

text \<open>The loop closes a page only when it holds a comment: no page is empty.\<close>

lemma loop_nonempty:
  "paginate_loop mc mp cs pages cur len = Inr res \<Longrightarrow> [] \<notin> set pages \<Longrightarrow> [] \<notin> set res"
proof (induction cs arbitrary: pages cur len)
  case Nil
  then show ?case by (auto split: if_splits)
next
  case (Cons c cs)
  then show ?case by (fastforce split: sum.splits if_splits)
qed

text \<open>
  C1. Whatever the budget and the cap, the pages of a sequence of comments, one after
  the other, are the sequence itself: no comment is lost, repeated or moved. The
  comments are those the loop can measure (dicts whose message, if there is one, has a
  length); on them \<open>paginate_comments\<close> returns.
\<close>

theorem paginate_concat:
  assumes "\<forall>c\<in>set comments. measurable c"
  shows "\<exists>pages. paginate_comments comments max_chars max_per_page = Inr pages \<and>
           concat pages = comments"
proof -
  from loop_total [OF assms] obtain pages
    where run: "paginate_loop max_chars max_per_page comments [] [] 0 = Inr pages"
    by blast
  from loop_concat [OF run] have "concat pages = comments" by simp
  with run show ?thesis by (simp add: paginate_comments_def)
qed

theorem paginate_concat_witness:
  "list_all measurable
     [JObj [(''message'', JStr ''ab'')], JObj [(''message'', JStr ''abcd'')], JObj []] \<and>
   (\<exists>pages. paginate_comments
              [JObj [(''message'', JStr ''ab'')], JObj [(''message'', JStr ''abcd'')], JObj []]
              2400 2 = Inr pages \<and>
      concat pages =
        [JObj [(''message'', JStr ''ab'')], JObj [(''message'', JStr ''abcd'')], JObj []])"
proof -
  define A where
    "A = [JObj [(''message'', JStr ''ab'')], JObj [(''message'', JStr ''abcd'')], JObj []]"
  have m: "\<forall>c\<in>set A. measurable c"
    by (simp add: A_def measurable_def comment_weight_def get_message_def dict_get_def)
  have "list_all measurable A \<and>
        (\<exists>pages. paginate_comments A 2400 2 = Inr pages \<and> concat pages = A)"
    using m paginate_concat [OF m, of 2400 2] by (simp add: list_all_iff)
  then show ?thesis unfolding A_def .
qed

text \<open>
  C2. Every page weighs at most \<open>max_chars\<close>, except a page made of one comment that
  alone weighs more; every such comment is on a page of its own, so it is not dropped;
  and when no comment weighs more than \<open>max_chars\<close>, no page does.
\<close>

theorem paginate_budget:
  assumes "\<forall>c\<in>set comments. measurable c"
  shows "\<exists>pages. paginate_comments comments max_chars max_per_page = Inr pages \<and>
           (\<forall>p\<in>set pages. page_weight p \<le> max_chars \<or>
                            (\<exists>c. p = [c] \<and> weight_of c > max_chars)) \<and>
           (\<forall>c\<in>set comments. weight_of c > max_chars \<longrightarrow> [c] \<in> set pages) \<and>
           ((\<forall>c\<in>set comments. weight_of c \<le> max_chars) \<longrightarrow>
              (\<forall>p\<in>set pages. page_weight p \<le> max_chars))"
proof -
  from loop_total [OF assms] obtain pages
    where run: "paginate_loop max_chars max_per_page comments [] [] 0 = Inr pages"
    by blast
  have flat: "concat pages = comments" using loop_concat [OF run] by simp
  have ok: "budget_ok max_chars p" if "p \<in> set pages" for p
    using loop_budget [OF run _ _ _ that] by (simp add: page_weight_def)
  have shape: "page_weight p \<le> max_chars \<or> (\<exists>c. p = [c] \<and> weight_of c > max_chars)"
    if "p \<in> set pages" for p
  proof -
    from ok [OF that] show ?thesis
      unfolding budget_ok_def by (cases p) auto
  qed
  have alone: "[c] \<in> set pages" if c: "c \<in> set comments" and big: "weight_of c > max_chars" for c
  proof -
    from c flat obtain p where p: "p \<in> set pages" and cp: "c \<in> set p" by auto
    from weight_le_page_weight [OF cp] big have "\<not> page_weight p \<le> max_chars" by simp
    with shape [OF p] obtain c' where "p = [c']" by blast
    with cp p show ?thesis by simp
  qed
  have small: "page_weight p \<le> max_chars"
    if all: "\<forall>c\<in>set comments. weight_of c \<le> max_chars" and p: "p \<in> set pages" for p
  proof -
    from shape [OF p] show ?thesis
    proof
      assume "page_weight p \<le> max_chars"
      then show ?thesis .
    next
      assume "\<exists>c. p = [c] \<and> weight_of c > max_chars"
      then obtain c where pc: "p = [c]" and big: "weight_of c > max_chars" by blast
      from pc have "c \<in> set p" by simp
      with p have "c \<in> set (concat pages)" by (rule in_page_in_concat)
      with flat have "c \<in> set comments" by simp
      with all big show ?thesis by auto
    qed
  qed
  from run shape alone small show ?thesis
    unfolding paginate_comments_def by blast
qed

theorem paginate_budget_witness:
  "(list_all measurable [JObj [(''message'', JStr ''ab'')], JObj [(''message'', JStr ''cd'')]] \<and>
    list_all (\<lambda>c. weight_of c \<le> 2)
      [JObj [(''message'', JStr ''ab'')], JObj [(''message'', JStr ''cd'')]] \<and>
    (\<exists>pages. paginate_comments [JObj [(''message'', JStr ''ab'')], JObj [(''message'', JStr ''cd'')]] 2 3
                = Inr pages \<and>
             (\<forall>p\<in>set pages. page_weight p \<le> 2))) \<and>
   (list_all measurable [JObj [(''message'', JStr ''abcd'')], JObj [(''message'', JStr ''ab'')]] \<and>
    weight_of (JObj [(''message'', JStr ''abcd'')]) > 1 \<and>
    (\<exists>pages. paginate_comments [JObj [(''message'', JStr ''abcd'')], JObj [(''message'', JStr ''ab'')]] 1 3
                = Inr pages \<and>
             [JObj [(''message'', JStr ''abcd'')]] \<in> set pages))"
proof -
  define big where "big = JObj [(''message'', JStr ''abcd'')]"
  define A where "A = [JObj [(''message'', JStr ''ab'')], JObj [(''message'', JStr ''cd'')]]"
  define B where "B = [big, JObj [(''message'', JStr ''ab'')]]"
  have m1: "\<forall>c\<in>set A. measurable c"
    by (simp add: A_def measurable_def comment_weight_def get_message_def dict_get_def)
  have w1: "\<forall>c\<in>set A. weight_of c \<le> 2"
    by (simp add: A_def weight_of_def comment_weight_def get_message_def dict_get_def effective_len_def)
  have m2: "\<forall>c\<in>set B. measurable c"
    by (simp add: B_def big_def measurable_def comment_weight_def get_message_def dict_get_def)
  have w2: "weight_of big > 1"
    by (simp add: big_def weight_of_def comment_weight_def get_message_def dict_get_def effective_len_def)
  have inB: "big \<in> set B" by (simp add: B_def)
  from paginate_budget [OF m1, of 2 3] w1
  have a: "\<exists>pages. paginate_comments A 2 3 = Inr pages \<and> (\<forall>p\<in>set pages. page_weight p \<le> 2)"
    by blast
  from paginate_budget [OF m2, of 1 3] w2 inB
  have b: "\<exists>pages. paginate_comments B 1 3 = Inr pages \<and> [big] \<in> set pages"
    by blast
  have l1: "list_all measurable A" using m1 by (simp add: list_all_iff)
  have l2: "list_all (\<lambda>c. weight_of c \<le> 2) A" using w1 by (simp add: list_all_iff)
  have l3: "list_all measurable B" using m2 by (simp add: list_all_iff)
  have "(list_all measurable A \<and> list_all (\<lambda>c. weight_of c \<le> 2) A \<and>
         (\<exists>pages. paginate_comments A 2 3 = Inr pages \<and> (\<forall>p\<in>set pages. page_weight p \<le> 2))) \<and>
        (list_all measurable B \<and> weight_of big > 1 \<and>
         (\<exists>pages. paginate_comments B 1 3 = Inr pages \<and> [big] \<in> set pages))"
    by (intro conjI l1 l2 a l3 w2 b)
  then show ?thesis unfolding A_def B_def big_def .
qed

text \<open>
  C3, as the specification states it, fails when \<open>max_per_page\<close> is not positive: the
  loop closes a page only when it holds a comment, so with \<open>max_per_page = 0\<close> a
  comment still gets a page, of one comment.
\<close>

theorem paginate_count_counterexample:
  "paginate_comments [JObj [(''message'', JStr ''hi'')]] 2400 0 =
     Inr [[JObj [(''message'', JStr ''hi'')]]] \<and>
   \<not> int (length [JObj [(''message'', JStr ''hi'')]]) \<le> 0"
  by (simp add: paginate_comments_def comment_weight_def get_message_def dict_get_def)

text \<open>
  C3, amended. Every page holds at least one comment and at most \<open>max_per_page\<close>
  comments, or exactly one comment when \<open>max_per_page\<close> is less than one.
\<close>

theorem paginate_count:
  assumes "\<forall>c\<in>set comments. measurable c"
  shows "\<exists>pages. paginate_comments comments max_chars max_per_page = Inr pages \<and>
           (\<forall>p\<in>set pages. 1 \<le> length p \<and> int (length p) \<le> max 1 max_per_page) \<and>
           (max_per_page < 1 \<longrightarrow> (\<forall>p\<in>set pages. length p = 1))"
proof -
  from loop_total [OF assms] obtain pages
    where run: "paginate_loop max_chars max_per_page comments [] [] 0 = Inr pages"
    by blast
  have upper: "int (length p) \<le> max 1 max_per_page" if "p \<in> set pages" for p
    using loop_count [OF run _ _ that] by simp
  have "[] \<notin> set pages" using loop_nonempty [OF run] by simp
  then have lower: "1 \<le> length p" if "p \<in> set pages" for p
    using that by (cases p) auto
  have one: "length p = 1" if "max_per_page < 1" and "p \<in> set pages" for p
    using upper [OF that(2)] lower [OF that(2)] that(1) by simp
  from run upper lower one show ?thesis
    unfolding paginate_comments_def by blast
qed

theorem paginate_count_witness:
  "(list_all measurable [JObj [(''message'', JStr ''a'')], JObj [(''message'', JStr ''b'')],
              JObj [(''message'', JStr ''c'')]] \<and>
    (\<exists>pages. paginate_comments [JObj [(''message'', JStr ''a'')], JObj [(''message'', JStr ''b'')],
              JObj [(''message'', JStr ''c'')]] 2400 2 = Inr pages \<and>
            (\<forall>p\<in>set pages. 1 \<le> length p \<and> int (length p) \<le> 2))) \<and>
   ((0::int) < 1 \<and>
    (\<exists>pages. paginate_comments [JObj [(''message'', JStr ''a'')], JObj [(''message'', JStr ''b'')],
              JObj [(''message'', JStr ''c'')]] 2400 0 = Inr pages \<and>
            (\<forall>p\<in>set pages. length p = 1)))"
proof -
  define A where "A = [JObj [(''message'', JStr ''a'')], JObj [(''message'', JStr ''b'')],
              JObj [(''message'', JStr ''c'')]]"
  have m: "\<forall>c\<in>set A. measurable c"
    by (simp add: A_def measurable_def comment_weight_def get_message_def dict_get_def)
  have l: "list_all measurable A" using m by (simp add: list_all_iff)
  have two: "\<exists>pages. paginate_comments A 2400 2 = Inr pages \<and>
               (\<forall>p\<in>set pages. 1 \<le> length p \<and> int (length p) \<le> 2)"
    using paginate_count [OF m, of 2400 2] by simp
  have z: "(0::int) < 1" by simp
  have zero: "\<exists>pages. paginate_comments A 2400 0 = Inr pages \<and> (\<forall>p\<in>set pages. length p = 1)"
    using paginate_count [OF m, of 2400 0] by auto
  have "(list_all measurable A \<and>
         (\<exists>pages. paginate_comments A 2400 2 = Inr pages \<and>
            (\<forall>p\<in>set pages. 1 \<le> length p \<and> int (length p) \<le> 2))) \<and>
        ((0::int) < 1 \<and>
         (\<exists>pages. paginate_comments A 2400 0 = Inr pages \<and> (\<forall>p\<in>set pages. length p = 1)))"
    by (intro conjI l two z zero)
  then show ?thesis unfolding A_def .
qed

text \<open>
  C7. The weight of a comment is the length of its message when that is more than 120,
  and half of it otherwise; a message of exactly 120 characters weighs 60.
\<close>

theorem comment_weight_rule:
  assumes "map_of kvs ''message'' = Some (JStr s)"
  shows "comment_weight (JObj kvs) =
           Inr (if length s > 120 then of_nat (length s) else of_nat (length s) / 2) \<and>
         (length s = 120 \<longrightarrow> comment_weight (JObj kvs) = Inr 60)"
  using assms by (simp add: comment_weight_def get_message_def dict_get_def effective_len_def)

theorem comment_weight_rule_witness:
  "map_of [(''author'', JStr ''A''), (''message'', JStr (replicate 120 CHR ''a''))] ''message'' =
     Some (JStr (replicate 120 CHR ''a'')) \<and>
   comment_weight (JObj [(''author'', JStr ''A''), (''message'', JStr (replicate 120 CHR ''a''))]) =
     Inr 60"
  using comment_weight_rule
    [of "[(''author'', JStr ''A''), (''message'', JStr (replicate 120 CHR ''a''))]"
        "replicate 120 CHR ''a''"]
  by simp

text \<open>
  C10. A comment without the key \<open>message\<close> is measured as the empty message: its
  weight is 0, the loop goes on (it raises nothing), the comment is put on a page at its
  place, and in the test that closes a page the weight condition is that of the running
  length alone: the comment adds nothing to it.
\<close>

theorem missing_message:
  assumes "map_of kvs ''message'' = None"
  shows "comment_weight (JObj kvs) = Inr 0 \<and>
         paginate_loop max_chars max_per_page (JObj kvs # cs) pages current_page current_len =
           (if current_page \<noteq> [] \<and>
               (current_len > max_chars \<or> int (length current_page) \<ge> max_per_page)
            then paginate_loop max_chars max_per_page cs (pages @ [current_page]) [JObj kvs] 0
            else paginate_loop max_chars max_per_page cs pages (current_page @ [JObj kvs])
                   current_len) \<and>
         (list_all measurable (earlier @ later) \<longrightarrow>
            (\<exists>res. paginate_comments (earlier @ JObj kvs # later) max_chars max_per_page = Inr res \<and>
                   concat res = earlier @ JObj kvs # later))"
proof -
  have w: "comment_weight (JObj kvs) = Inr 0"
    using assms by (simp add: comment_weight_def get_message_def dict_get_def effective_len_def)
  have step: "paginate_loop max_chars max_per_page (JObj kvs # cs) pages current_page current_len =
           (if current_page \<noteq> [] \<and>
               (current_len > max_chars \<or> int (length current_page) \<ge> max_per_page)
            then paginate_loop max_chars max_per_page cs (pages @ [current_page]) [JObj kvs] 0
            else paginate_loop max_chars max_per_page cs pages (current_page @ [JObj kvs])
                   current_len)"
    using w by simp
  have total: "\<exists>res. paginate_comments (earlier @ JObj kvs # later) max_chars max_per_page = Inr res \<and>
                   concat res = earlier @ JObj kvs # later"
    if others: "list_all measurable (earlier @ later)"
  proof -
    have "measurable (JObj kvs)" using w by (simp add: measurable_def)
    with others have all: "\<forall>c\<in>set (earlier @ JObj kvs # later). measurable c"
      by (auto simp: list_all_iff)
    from loop_total [OF all] obtain res
      where run: "paginate_loop max_chars max_per_page (earlier @ JObj kvs # later) [] [] 0 = Inr res"
      by blast
    from loop_concat [OF run] have "concat res = earlier @ JObj kvs # later" by simp
    with run show ?thesis by (simp add: paginate_comments_def)
  qed
  from w step total show ?thesis by blast
qed

theorem missing_message_witness:
  "map_of [(''author'', JStr ''C'')] ''message'' = None \<and>
   comment_weight (JObj [(''author'', JStr ''C'')]) = Inr 0 \<and>
   list_all measurable ([JObj [(''message'', JStr ''ab'')]] @ []) \<and>
   (\<exists>res. paginate_comments ([JObj [(''message'', JStr ''ab'')]] @ JObj [(''author'', JStr ''C'')] # [])
            2400 2 = Inr res \<and>
          concat res = [JObj [(''message'', JStr ''ab'')]] @ JObj [(''author'', JStr ''C'')] # [])"
proof -
  define c where "c = [(''author'', JStr ''C'')]"
  define e where "e = [JObj [(''message'', JStr ''ab'')]]"
  have n: "map_of c ''message'' = None" by (simp add: c_def)
  have m: "list_all measurable (e @ [])"
    by (simp add: e_def measurable_def comment_weight_def get_message_def dict_get_def)
  from missing_message [OF n, of 2400 2 "[]" "[]" "[]" 0 e "[]"] m
  have "map_of c ''message'' = None \<and> comment_weight (JObj c) = Inr 0 \<and>
        list_all measurable (e @ []) \<and>
        (\<exists>res. paginate_comments (e @ JObj c # []) 2400 2 = Inr res \<and>
               concat res = e @ JObj c # [])"
    using n by blast
  then show ?thesis unfolding c_def e_def .
qed

text \<open>
  C6. What \<open>parse_background\<close> returns: for a str, the str as image with the two
  defaults; for a dict, each of the three fields from the dict, and where the key is
  missing the empty str for the image and the default for size and position; for
  \<open>None\<close> and any other value, the empty image with the two defaults.
\<close>

theorem parse_background_cases:
  "parse_background (JStr s) default_size default_position =
     \<lparr>bg_image = JStr s, bg_size = default_size, bg_position = default_position\<rparr> \<and>
   parse_background (JObj kvs) default_size default_position =
     \<lparr>bg_image = (case map_of kvs ''image'' of None \<Rightarrow> JStr [] | Some v \<Rightarrow> v),
      bg_size = (case map_of kvs ''size'' of None \<Rightarrow> default_size | Some v \<Rightarrow> v),
      bg_position = (case map_of kvs ''position'' of None \<Rightarrow> default_position | Some v \<Rightarrow> v)\<rparr> \<and>
   parse_background JNull default_size default_position =
     \<lparr>bg_image = JStr [], bg_size = default_size, bg_position = default_position\<rparr> \<and>
   parse_background (JBool b) default_size default_position =
     \<lparr>bg_image = JStr [], bg_size = default_size, bg_position = default_position\<rparr> \<and>
   parse_background (JInt i) default_size default_position =
     \<lparr>bg_image = JStr [], bg_size = default_size, bg_position = default_position\<rparr> \<and>
   parse_background (JFloat f) default_size default_position =
     \<lparr>bg_image = JStr [], bg_size = default_size, bg_position = default_position\<rparr> \<and>
   parse_background (JArr xs) default_size default_position =
     \<lparr>bg_image = JStr [], bg_size = default_size, bg_position = default_position\<rparr>"
  by (simp add: dict_get_def)

text \<open>The three examples of the specification.\<close>

lemma parse_background_examples:
  "parse_background (JStr ''photo.jpg'') (JStr ''cover'') (JStr ''center'') =
     \<lparr>bg_image = JStr ''photo.jpg'', bg_size = JStr ''cover'', bg_position = JStr ''center''\<rparr>"
  "parse_background (JObj [(''image'', JStr ''bg.jpg''), (''size'', JStr ''50% 50%'')])
       (JStr ''cover'') (JStr ''center'') =
     \<lparr>bg_image = JStr ''bg.jpg'', bg_size = JStr ''50% 50%'', bg_position = JStr ''center''\<rparr>"
  "parse_background JNull (JStr ''auto'') (JStr ''top'') =
     \<lparr>bg_image = JStr [], bg_size = JStr ''auto'', bg_position = JStr ''top''\<rparr>"
  by (simp_all add: dict_get_def)

section \<open>The render context\<close>






section \<open>The validator\<close>








text \<open>What the check of the height does on a str, and the two examples of the
  specification: \<open>120\<close> is rejected with the indexed path, \<open>120px\<close> is accepted.\<close>

lemma check_height_rejects:
  "\<not> height_pattern_match h \<Longrightarrow>
   check_height i (JStr h) =
     Inl (ValidationError (comment_at i @ ''.height must be in format '' @ quoted ''XXXpx'' @
                           ''. Got: '' @ quoted h))"
  by simp

lemma check_height_accepts: "height_pattern_match h \<Longrightarrow> check_height i (JStr h) = Inr ()"
  by simp

lemma spec_pattern_accepted: "spec_pixel_magnitude h \<Longrightarrow> height_pattern_match h"
  by (simp add: spec_pixel_magnitude_def height_pattern_match_def at_end_def)

lemma check_height_examples:
  "check_height 3 (JStr ''120'') =
     Inl (ValidationError (''comments[3].height must be in format '' @ quoted ''XXXpx'' @
                           ''. Got: '' @ quoted ''120''))"
  "check_height 3 (JStr ''120px'') = Inr ()"
  by (simp_all add: height_pattern_match_def is_digit_def at_end_def comment_at_def str_nat.simps
        digit_char_def)

text \<open>
  C4. The check of the height gives the value to \<open>height_pattern.match\<close> without
  testing that it is a str, as the checks of author, message and position do. On a
  dataset that is valid but for a height that is the number 120, \<open>validate_comments\<close>
  raises \<open>TypeError\<close>, not \<open>ValidationError\<close>.
\<close>

theorem height_number_type_error:
  "validate_comments (\<lambda>p. True)
     (JObj [(''person'',
               JObj [(''name'', JStr ''Bryan''), (''subtitle'', JStr ''s''),
                     (''profile_image'', JStr ''p.jpg''), (''header_note'', JStr ''h''),
                     (''date_range'', JStr ''1950'')]),
            (''backgrounds'',
               JObj [(''cover'', JObj [(''image'', JStr ''bg.jpg''), (''size'', JStr ''cover''),
                                       (''position'', JStr ''center'')])]),
            (''comments'',
               JArr [JObj [(''author'', JStr ''A''), (''message'', JStr ''hi''),
                           (''height'', JInt 120)]])])
     = Inl TypeError \<and>
   run_validations (\<lambda>p. True)
     (JObj [(''person'',
               JObj [(''name'', JStr ''Bryan''), (''subtitle'', JStr ''s''),
                     (''profile_image'', JStr ''p.jpg''), (''header_note'', JStr ''h''),
                     (''date_range'', JStr ''1950'')]),
            (''backgrounds'',
               JObj [(''cover'', JObj [(''image'', JStr ''bg.jpg''), (''size'', JStr ''cover''),
                                       (''position'', JStr ''center'')])]),
            (''comments'',
               JArr [JObj [(''author'', JStr ''A''), (''message'', JStr ''hi''),
                           (''height'', JInt 120)]])])
     = Inl TypeError"
  by (simp add: run_validations_def validate_person_def validate_backgrounds_def
        validate_background_object_def validate_comments_def check_comment_def
        check_profile_image_def on_ok_def quoted_def py_isspace_def)

text \<open>
  C9. The pattern is compiled with \<open>$\<close>, which also matches before a newline that ends
  the string. A height of \<open>120px\<close> followed by a newline is not digits followed by
  \<open>px\<close>, yet the validation of a dataset with that height succeeds.
\<close>

theorem height_trailing_newline_accepted:
  "\<not> spec_pixel_magnitude (''120px'' @ [CHR 0x0A]) \<and>
   height_pattern_match (''120px'' @ [CHR 0x0A]) \<and>
   run_validations (\<lambda>p. True)
     (JObj [(''person'',
               JObj [(''name'', JStr ''Bryan''), (''subtitle'', JStr ''s''),
                     (''profile_image'', JStr ''p.jpg''), (''header_note'', JStr ''h''),
                     (''date_range'', JStr ''1950'')]),
            (''backgrounds'',
               JObj [(''cover'', JObj [(''image'', JStr ''bg.jpg''), (''size'', JStr ''cover''),
                                       (''position'', JStr ''center'')])]),
            (''comments'',
               JArr [JObj [(''author'', JStr ''A''), (''message'', JStr ''hi''),
                           (''height'', JStr (''120px'' @ [CHR 0x0A]))]])])
     = Inr None"
  by (simp add: run_validations_def validate_person_def validate_backgrounds_def
        validate_background_object_def validate_comments_def check_comment_def
        check_profile_image_def on_ok_def quoted_def py_isspace_def
        spec_pixel_magnitude_def height_pattern_match_def is_digit_def at_end_def
        duplicates_def)

end
